theory Spec2Isabelle
  imports Main
begin

section \<open>The coalescer of \<open>bin/coalesce_parquet.py\<close>\<close>

text \<open>
  \<^verbatim>\<open>coalesce(items, max_size, sizer)\<close> is a generator. Its body is a \<^verbatim>\<open>for\<close> loop over the
  items that keeps two local variables, \<^verbatim>\<open>batch\<close> and \<^verbatim>\<open>current_size\<close>, followed by a
  guarded final \<^verbatim>\<open>yield\<close>. Python integers are unbounded, so sizes are \<^typ>\<open>int\<close>.

  \<open>coalesce_loop\<close> is the \<^verbatim>\<open>for\<close> loop, started with the given values of the two locals:
  it returns the groups yielded inside the loop, in order, and the value of \<^verbatim>\<open>batch\<close>
  when the loop ends. The \<^verbatim>\<open>yield\<close> inside the loop is not guarded.
\<close>

fun coalesce_loop ::
  "'a list \<Rightarrow> int \<Rightarrow> ('a \<Rightarrow> int) \<Rightarrow> 'a list \<Rightarrow> int \<Rightarrow> 'a list list \<times> 'a list" where
  "coalesce_loop [] max_size sizer batch current_size = ([], batch)"
| "coalesce_loop (item # items) max_size sizer batch current_size =
     (let this_size = sizer item in
      if current_size + this_size > max_size
      then (let (out, final) = coalesce_loop items max_size sizer ([] @ [item]) (0 + this_size)
            in (batch # out, final))
      else coalesce_loop items max_size sizer (batch @ [item]) (current_size + this_size))"

text \<open>
  The generator as a whole: the loop from \<^verbatim>\<open>batch = []\<close>, \<^verbatim>\<open>current_size = 0\<close>, then
  \<^verbatim>\<open>if batch: yield batch\<close>. The result is the list of all groups yielded.
\<close>

definition coalesce :: "'a list \<Rightarrow> int \<Rightarrow> ('a \<Rightarrow> int) \<Rightarrow> 'a list list" where
  "coalesce items max_size sizer =
     (let (out, batch) = coalesce_loop items max_size sizer [] 0
      in if batch \<noteq> [] then out @ [batch] else out)"

text \<open>The sizer precondition of the documentation: sizes are never negative.\<close>

definition nonneg_sizer :: "('a \<Rightarrow> int) \<Rightarrow> bool" where
  "nonneg_sizer sizer = (\<forall>x. 0 \<le> sizer x)"

text \<open>Vocabulary for the properties of a group \<open>g\<close> under budget \<open>m\<close>.\<close>

definition within_budget :: "int \<Rightarrow> ('a \<Rightarrow> int) \<Rightarrow> 'a list \<Rightarrow> bool" where
  "within_budget m sizer g = (sum_list (map sizer g) \<le> m)"

definition oversized_singleton :: "int \<Rightarrow> ('a \<Rightarrow> int) \<Rightarrow> 'a list \<Rightarrow> bool" where
  "oversized_singleton m sizer g = (case g of [x] \<Rightarrow> m < sizer x | _ \<Rightarrow> False)"

definition alone_if_oversized :: "int \<Rightarrow> ('a \<Rightarrow> int) \<Rightarrow> 'a list \<Rightarrow> bool" where
  "alone_if_oversized m sizer g = (\<forall>x \<in> set g. m < sizer x \<longrightarrow> g = [x])"

section \<open>The streaming pipeline\<close>

subsection \<open>Generators and the library\<close>

text \<open>
  Exceptions of the run. The reader, the table concatenation and the cast belong to the
  columnar library; when one of them raises, the run ends with the matching error.
  \<open>IndexError\<close> is Python's, for a missing command-line argument.
\<close>

datatype error = FormatError | ConcatError | SchemaMismatchError | IndexError

text \<open>
  A finite generator is the list of the items it yields, followed by how it ends:
  \<open>None\<close> when it is exhausted, \<open>Some e\<close> when pulling the next item raises \<open>e\<close>.
  Every stage pulls one item at a time, so a consumer has handled all the items yielded
  before it sees the exception.
\<close>

type_synonym 'a gen = "'a list \<times> error option"

text \<open>
  The primitives of the columnar library and of the file system that the script calls,
  taken as parameters: \<open>'t\<close> is the type of tables, \<open>'b\<close> of record batches and \<open>'s\<close> of
  schemas. Paths and patterns are strings.
\<close>

record ('t, 'b, 's) arrow =
  schema_of :: "'t \<Rightarrow> 's"
  cast :: "'t \<Rightarrow> 's \<Rightarrow> 't option"
  num_rows :: "'t \<Rightarrow> int"
  concat_tables :: "'t list \<Rightarrow> 't option"
  from_batches :: "'b list \<Rightarrow> 't"
  iter_batches :: "string \<Rightarrow> 'b gen"
  glob :: "string \<Rightarrow> string \<Rightarrow> string list"
  slice :: "'t \<Rightarrow> int \<Rightarrow> int \<Rightarrow> 't"

text \<open>
  \<open>schema_of t\<close> is \<^verbatim>\<open>t.schema\<close>; \<open>cast t s\<close> is \<^verbatim>\<open>t.cast(s)\<close>, \<open>None\<close> when it raises;
  \<open>num_rows t\<close> is \<^verbatim>\<open>len(t)\<close>, the default sizer applied to a table;
  \<open>concat_tables g\<close> is \<^verbatim>\<open>pa.concat_tables(g)\<close>, \<open>None\<close> when it raises;
  \<open>from_batches\<close> is \<^verbatim>\<open>pa.Table.from_batches\<close>;
  \<open>iter_batches p\<close> is \<^verbatim>\<open>pq.ParquetFile(p).iter_batches()\<close>, ending in an error when the
  file cannot be opened or read; \<open>glob d pat\<close> is \<^verbatim>\<open>Path(d).glob(pat)\<close>;
  \<open>slice t offset len\<close> is \<^verbatim>\<open>t.slice(offset, len)\<close>, the \<open>len\<close> rows of \<open>t\<close> from row
  \<open>offset\<close> on.

  The files written by \<^verbatim>\<open>pq.ParquetWriter\<close>: for each path, the schema the writer was
  opened with and the row groups written so far, each row group as the table of its rows.
\<close>

type_synonym ('t, 's) parquet = "'s \<times> 't list"
type_synonym ('t, 's) files = "string \<rightharpoonup> ('t, 's) parquet"

text \<open>
  The script calls \<^verbatim>\<open>writer.write_table(table)\<close> without a \<^verbatim>\<open>row_group_size\<close>. The
  library then takes the minimum of the table's size and \<open>1024 * 1024\<close> rows as the size
  of a row group: a table of at most that many rows is written as one row group, a
  larger one is cut into consecutive row groups of that many rows, the last one holding
  the remainder.
\<close>

definition max_row_group_length :: int where
  "max_row_group_length = 1024 * 1024"

definition row_groups :: "('t, 'b, 's) arrow \<Rightarrow> 't \<Rightarrow> 't list" where
  "row_groups lib table =
     (let n = num_rows lib table; chunk_size = max_row_group_length
      in if n \<le> chunk_size then [table]
         else map (\<lambda>chunk. slice lib table (int chunk * chunk_size)
                               (min chunk_size (n - int chunk * chunk_size)))
                  [0 ..< nat ((n + chunk_size - 1) div chunk_size)])"

definition write_table ::
  "('t, 'b, 's) arrow \<Rightarrow> ('t, 's) parquet \<Rightarrow> 't \<Rightarrow> ('t, 's) parquet" where
  "write_table lib writer table = (fst writer, snd writer @ row_groups lib table)"

subsection \<open>The sink\<close>

text \<open>
  The loop \<^verbatim>\<open>for table in tables: table = table.cast(schema); writer.write_table(table)\<close>
  on the open writer. It returns the writer and the exception that ended the loop, if any.
\<close>

fun write_rest ::
  "('t, 'b, 's) arrow \<Rightarrow> 's \<Rightarrow> 't list \<Rightarrow> ('t, 's) parquet \<Rightarrow> ('t, 's) parquet \<times> error option"
  where
  "write_rest lib schema [] writer = (writer, None)"
| "write_rest lib schema (table # tables) writer =
     (case cast lib table schema of
        None \<Rightarrow> (writer, Some SchemaMismatchError)
      | Some table' \<Rightarrow> write_rest lib schema tables (write_table lib writer table'))"

text \<open>
  \<^verbatim>\<open>stream_to_parquet(path, tables)\<close>: the files after the call and the exception it
  raised, if any. When \<^verbatim>\<open>next(tables)\<close> raises \<^verbatim>\<open>StopIteration\<close> the function returns;
  any other exception of \<^verbatim>\<open>next\<close> propagates. The \<^verbatim>\<open>with\<close> block closes the writer on
  every exit, so the file keeps what was written before an exception.
\<close>

definition stream_to_parquet ::
  "('t, 'b, 's) arrow \<Rightarrow> string \<Rightarrow> 't gen \<Rightarrow> ('t, 's) files \<Rightarrow> ('t, 's) files \<times> error option"
  where
  "stream_to_parquet lib path tables fs =
     (case fst tables of
        [] \<Rightarrow> (fs, snd tables)
      | first # rest \<Rightarrow>
          (let schema = schema_of lib first;
               writer = write_table lib (schema, []) first;
               (writer', raised) = write_rest lib schema rest writer
           in (fs(path \<mapsto> writer'),
               case raised of Some e \<Rightarrow> Some e | None \<Rightarrow> snd tables)))"

subsection \<open>The sources\<close>

text \<open>\<^verbatim>\<open>stream_from_parquet(path)\<close>: one table per batch of the file.\<close>

definition stream_from_parquet :: "('t, 'b, 's) arrow \<Rightarrow> string \<Rightarrow> 't gen" where
  "stream_from_parquet lib path =
     (let reader = iter_batches lib path
      in (map (\<lambda>batch. from_batches lib [batch]) (fst reader), snd reader))"

text \<open>
  \<^verbatim>\<open>for path in paths: yield from stream_from_parquet(path)\<close>: the streams of the files
  one after the other, up to the first one that raises.
\<close>

fun yield_from_paths :: "('t, 'b, 's) arrow \<Rightarrow> string list \<Rightarrow> 't gen" where
  "yield_from_paths lib [] = ([], None)"
| "yield_from_paths lib (path # paths) =
     (case stream_from_parquet lib path of
        (tables, Some e) \<Rightarrow> (tables, Some e)
      | (tables, None) \<Rightarrow>
          (let (more, raised) = yield_from_paths lib paths in (tables @ more, raised)))"

definition stream_from_dir :: "('t, 'b, 's) arrow \<Rightarrow> string \<Rightarrow> string \<Rightarrow> 't gen" where
  "stream_from_dir lib directory pattern = yield_from_paths lib (glob lib directory pattern)"

subsection \<open>The orchestrator\<close>

text \<open>
  \<open>coalesce\<close> over a generator: when the input is exhausted, all the groups of \<open>coalesce\<close>;
  when the input raises, the groups yielded inside the loop, then the exception (the
  final \<^verbatim>\<open>yield\<close> is not reached).
\<close>

definition coalesce_gen :: "'a gen \<Rightarrow> int \<Rightarrow> ('a \<Rightarrow> int) \<Rightarrow> 'a list gen" where
  "coalesce_gen items max_size sizer =
     (case snd items of
        None \<Rightarrow> (coalesce (fst items) max_size sizer, None)
      | Some e \<Rightarrow> (fst (coalesce_loop (fst items) max_size sizer [] 0), Some e))"

text \<open>
  The generator expression \<^verbatim>\<open>(pa.concat_tables(group) for group in table_groups)\<close>: the
  concatenated groups up to the first group on which the concatenation raises.
\<close>

fun concat_groups :: "('t, 'b, 's) arrow \<Rightarrow> 't list list \<Rightarrow> 't gen" where
  "concat_groups lib [] = ([], None)"
| "concat_groups lib (grp # groups) =
     (case concat_tables lib grp of
        None \<Rightarrow> ([], Some ConcatError)
      | Some table \<Rightarrow>
          (let (tables, raised) = concat_groups lib groups in (table # tables, raised)))"

definition coalesced_tables :: "('t, 'b, 's) arrow \<Rightarrow> 't list gen \<Rightarrow> 't gen" where
  "coalesced_tables lib table_groups =
     (let (tables, raised) = concat_groups lib (fst table_groups)
      in (tables, case raised of Some e \<Rightarrow> Some e | None \<Rightarrow> snd table_groups))"

text \<open>
  \<^verbatim>\<open>coalese_parquets(in_directory, pattern, outpath, max_size=2**20)\<close>. The optional
  argument is an \<open>option\<close>: \<open>None\<close> when the caller leaves it out. The sizer passed to
  \<open>coalesce\<close> is its default, \<^verbatim>\<open>len\<close>, which on a table is its number of rows.
\<close>

definition coalese_parquets ::
  "('t, 'b, 's) arrow \<Rightarrow> string \<Rightarrow> string \<Rightarrow> string \<Rightarrow> int option \<Rightarrow>
   ('t, 's) files \<Rightarrow> ('t, 's) files \<times> error option" where
  "coalese_parquets lib in_directory pattern outpath max_size_arg fs =
     (let max_size = (case max_size_arg of None \<Rightarrow> 2 ^ 20 | Some m \<Rightarrow> m);
          tables = stream_from_dir lib in_directory pattern;
          table_groups = coalesce_gen tables max_size (num_rows lib)
      in stream_to_parquet lib outpath (coalesced_tables lib table_groups) fs)"

text \<open>
  \<^verbatim>\<open>main(argv)\<close>, with \<open>argv\<close> the arguments after the program name. Indexing a missing
  argument raises; the call passes three arguments and no \<^verbatim>\<open>max_size\<close>. An error
  \<open>None\<close> in the result is the return value 0.
\<close>

definition main :: "('t, 'b, 's) arrow \<Rightarrow> string list \<Rightarrow> ('t, 's) files \<Rightarrow>
   ('t, 's) files \<times> error option" where
  "main lib argv fs =
     (if length argv < 3 then (fs, Some IndexError)
      else coalese_parquets lib (argv ! 0) (argv ! 1) (argv ! 2) None fs)"

subsection \<open>A small library instance for concrete runs\<close>

text \<open>
  A table is a schema name with a list of rows; a batch is the same. A cast succeeds when
  the schema already matches, a concatenation when there is at least one table and all
  tables agree on the schema. The directory \<open>in\<close> holds two files of one batch of three
  rows each. A byte sizer that counts eight bytes a row stands for \<^verbatim>\<open>t.nbytes\<close>.
  A slice takes the rows by position.
\<close>

type_synonym demo_table = "string \<times> nat list"

definition demo_concat :: "demo_table list \<Rightarrow> demo_table option" where
  "demo_concat ts =
     (case ts of
        [] \<Rightarrow> None
      | t # _ \<Rightarrow> if list_all (\<lambda>u. fst u = fst t) ts
                 then Some (fst t, concat (map snd ts)) else None)"

definition demo_iter_batches :: "string \<Rightarrow> demo_table gen" where
  "demo_iter_batches path =
     (if path = ''in/a.parquet'' then ([(''s'', [1, 2, 3])], None)
      else if path = ''in/b.parquet'' then ([(''s'', [4, 5, 6])], None)
      else ([], Some FormatError))"

definition demo_glob :: "string \<Rightarrow> string \<Rightarrow> string list" where
  "demo_glob directory pattern =
     (if directory = ''in'' \<and> pattern = ''*.parquet''
      then [''in/a.parquet'', ''in/b.parquet''] else [])"

definition demo :: "(demo_table, demo_table, string) arrow" where
  "demo = \<lparr> schema_of = fst,
            cast = (\<lambda>t s. if fst t = s then Some t else None),
            num_rows = (\<lambda>t. int (length (snd t))),
            concat_tables = demo_concat,
            from_batches = (\<lambda>bs. (fst (hd bs), concat (map snd bs))),
            iter_batches = demo_iter_batches,
            glob = demo_glob,
            slice = (\<lambda>t offset len. (fst t, take (nat len) (drop (nat offset) (snd t)))) \<rparr>"

definition demo_nbytes :: "demo_table \<Rightarrow> int" where
  "demo_nbytes t = 8 * int (length (snd t))"




section \<open>Properties of the coalescer\<close>

subsection \<open>Invariants of the loop\<close>

lemma coalesce_loop_concat:
  "coalesce_loop xs m sizer batch cur = (out, final) \<Longrightarrow>
   batch @ xs = concat out @ final"
proof (induction xs arbitrary: batch cur out final)
  case Nil
  then show ?case by simp
next
  case (Cons x xs)
  show ?case
  proof (cases "cur + sizer x > m")
    case True
    obtain out' final' where r: "coalesce_loop xs m sizer [x] (sizer x) = (out', final')"
      by (cases "coalesce_loop xs m sizer [x] (sizer x)") auto
    from Cons.prems True r have "out = batch # out'" "final = final'"
      by (simp_all add: Let_def)
    moreover from Cons.IH [OF r] have "[x] @ xs = concat out' @ final'" .
    ultimately show ?thesis by simp
  next
    case False
    with Cons.prems have "coalesce_loop xs m sizer (batch @ [x]) (cur + sizer x) = (out, final)"
      by (simp add: Let_def)
    from Cons.IH [OF this] show ?thesis by simp
  qed
qed

lemma coalesce_flatten: "concat (coalesce xs m sizer) = xs"
proof -
  obtain out final where r: "coalesce_loop xs m sizer [] 0 = (out, final)"
    by (cases "coalesce_loop xs m sizer [] 0") auto
  from coalesce_loop_concat [OF r] have "xs = concat out @ final" by simp
  with r show ?thesis by (simp add: coalesce_def)
qed

lemma coalesce_groups:
  "coalesce_loop xs m sizer [] 0 = (out, final) \<Longrightarrow>
   g \<in> set (coalesce xs m sizer) \<Longrightarrow> g \<in> set out \<union> {final}"
  by (auto simp: coalesce_def split: if_splits)

lemma coalesce_loop_budget:
  "coalesce_loop xs m sizer batch cur = (out, final) \<Longrightarrow>
   cur = sum_list (map sizer batch) \<Longrightarrow>
   within_budget m sizer batch \<or> oversized_singleton m sizer batch \<Longrightarrow>
   (\<forall>g \<in> set out \<union> {final}. within_budget m sizer g \<or> oversized_singleton m sizer g)"
proof (induction xs arbitrary: batch cur out final)
  case Nil
  then show ?case by simp
next
  case (Cons x xs)
  show ?case
  proof (cases "cur + sizer x > m")
    case True
    obtain out' final' where r: "coalesce_loop xs m sizer [x] (sizer x) = (out', final')"
      by (cases "coalesce_loop xs m sizer [x] (sizer x)") auto
    from Cons.prems(1) True r have o: "out = batch # out'" "final = final'"
      by (simp_all add: Let_def)
    have "within_budget m sizer [x] \<or> oversized_singleton m sizer [x]"
      by (auto simp: within_budget_def oversized_singleton_def)
    from Cons.IH [OF r _ this]
    have "\<forall>g \<in> set out' \<union> {final'}. within_budget m sizer g \<or> oversized_singleton m sizer g"
      by simp
    with o Cons.prems(3) show ?thesis by simp
  next
    case False
    with Cons.prems(1)
    have r: "coalesce_loop xs m sizer (batch @ [x]) (cur + sizer x) = (out, final)"
      by (simp add: Let_def)
    from False Cons.prems(2) have "within_budget m sizer (batch @ [x])"
      by (simp add: within_budget_def)
    with Cons.IH [OF r] Cons.prems(2) show ?thesis by simp
  qed
qed

lemma sum_sizes_nonneg: "nonneg_sizer sizer \<Longrightarrow> 0 \<le> sum_list (map sizer xs)"
  by (induction xs) (simp_all add: nonneg_sizer_def)

lemma coalesce_loop_alone:
  "coalesce_loop xs m sizer batch cur = (out, final) \<Longrightarrow>
   nonneg_sizer sizer \<Longrightarrow>
   cur = sum_list (map sizer batch) \<Longrightarrow>
   alone_if_oversized m sizer batch \<Longrightarrow>
   (\<forall>g \<in> set out \<union> {final}. alone_if_oversized m sizer g)"
proof (induction xs arbitrary: batch cur out final)
  case Nil
  then show ?case by simp
next
  case (Cons x xs)
  show ?case
  proof (cases "cur + sizer x > m")
    case True
    obtain out' final' where r: "coalesce_loop xs m sizer [x] (sizer x) = (out', final')"
      by (cases "coalesce_loop xs m sizer [x] (sizer x)") auto
    from Cons.prems(1) True r have o: "out = batch # out'" "final = final'"
      by (simp_all add: Let_def)
    have "alone_if_oversized m sizer [x]"
      by (simp add: alone_if_oversized_def)
    from Cons.IH [OF r Cons.prems(2) _ this]
    have "\<forall>g \<in> set out' \<union> {final'}. alone_if_oversized m sizer g"
      by simp
    with o Cons.prems(4) show ?thesis by simp
  next
    case False
    with Cons.prems(1)
    have r: "coalesce_loop xs m sizer (batch @ [x]) (cur + sizer x) = (out, final)"
      by (simp add: Let_def)
    have nn: "0 \<le> sizer x" "0 \<le> cur"
      using Cons.prems(2,3) sum_sizes_nonneg [of sizer batch] by (simp_all add: nonneg_sizer_def)
    have small: "\<not> m < sizer y" if "y \<in> set (batch @ [x])" for y
    proof
      assume big: "m < sizer y"
      show False
      proof (cases "y \<in> set batch")
        case True
        with big Cons.prems(4) have "batch = [y]" by (auto simp: alone_if_oversized_def)
        with Cons.prems(3) have "cur = sizer y" by simp
        with big nn False show False by simp
      next
        case False
        with that have "y = x" by simp
        with big nn \<open>\<not> cur + sizer x > m\<close> show False by simp
      qed
    qed
    then have "alone_if_oversized m sizer (batch @ [x])"
      unfolding alone_if_oversized_def by blast
    with Cons.IH [OF r Cons.prems(2)] Cons.prems(3) show ?thesis by simp
  qed
qed

lemma coalesce_loop_nonempty:
  "coalesce_loop xs m sizer batch cur = (out, final) \<Longrightarrow> batch \<noteq> [] \<Longrightarrow>
   [] \<notin> set out \<and> final \<noteq> []"
proof (induction xs arbitrary: batch cur out final)
  case Nil
  then show ?case by simp
next
  case (Cons x xs)
  show ?case
  proof (cases "cur + sizer x > m")
    case True
    obtain out' final' where r: "coalesce_loop xs m sizer [x] (sizer x) = (out', final')"
      by (cases "coalesce_loop xs m sizer [x] (sizer x)") auto
    from Cons.prems(1) True r have o: "out = batch # out'" "final = final'"
      by (simp_all add: Let_def)
    from Cons.IH [OF r] have "[] \<notin> set out' \<and> final' \<noteq> []" by simp
    with o Cons.prems(2) show ?thesis by auto
  next
    case False
    with Cons.prems(1)
    have r: "coalesce_loop xs m sizer (batch @ [x]) (cur + sizer x) = (out, final)"
      by (simp add: Let_def)
    from Cons.IH [OF r] show ?thesis by simp
  qed
qed

lemma coalesce_Nil: "coalesce [] m sizer = []"
  by (simp add: coalesce_def)

lemma coalesce_Cons_big:
  assumes "m < sizer x"
  shows "\<exists>gs. coalesce (x # xs) m sizer = [] # gs \<and> [] \<notin> set gs"
proof -
  obtain out final where r: "coalesce_loop xs m sizer [x] (sizer x) = (out, final)"
    by (cases "coalesce_loop xs m sizer [x] (sizer x)") auto
  from coalesce_loop_nonempty [OF r] have "[] \<notin> set out \<and> final \<noteq> []" by simp
  with r assms show ?thesis by (auto simp: coalesce_def Let_def)
qed

lemma coalesce_Cons_small:
  assumes "\<not> m < sizer x"
  shows "[] \<notin> set (coalesce (x # xs) m sizer)"
proof -
  obtain out final where r: "coalesce_loop xs m sizer [x] (sizer x) = (out, final)"
    by (cases "coalesce_loop xs m sizer [x] (sizer x)") auto
  from coalesce_loop_nonempty [OF r] have "[] \<notin> set out \<and> final \<noteq> []" by simp
  with r assms show ?thesis by (auto simp: coalesce_def Let_def)
qed

subsection \<open>The claims about \<open>coalesce\<close>\<close>

text \<open>
  C1. The groups emitted by \<open>coalesce\<close>, flattened in order, are exactly the input: no item
  is lost, duplicated or reordered, across groups and within each group. This holds for
  every budget and every sizer, so in particular for a positive budget and a sizer that is
  never negative.
\<close>

theorem coalesce_concat: "concat (coalesce xs m sizer) = xs"
  by (rule coalesce_flatten)

text \<open>
  C2. For a positive budget \<open>m\<close>, every emitted group that is not a singleton whose item
  is larger than \<open>m\<close> has total size at most \<open>m\<close>. The sizer may be any function.
\<close>

theorem coalesce_within_budget:
  assumes "0 < m" and "g \<in> set (coalesce xs m sizer)"
    and "\<not> oversized_singleton m sizer g"
  shows "sum_list (map sizer g) \<le> m"
proof -
  obtain out final where r: "coalesce_loop xs m sizer [] 0 = (out, final)"
    by (cases "coalesce_loop xs m sizer [] 0") auto
  from assms(1) have "within_budget m sizer [] \<or> oversized_singleton m sizer []"
    by (simp add: within_budget_def)
  from coalesce_loop_budget [OF r _ this]
  have a: "\<forall>g \<in> set out \<union> {final}. within_budget m sizer g \<or> oversized_singleton m sizer g"
    by simp
  from coalesce_groups [OF r assms(2)] have "g \<in> set out \<union> {final}" .
  with a assms(3) show ?thesis by (auto simp: within_budget_def)
qed

theorem coalesce_within_budget_witness:
  "(0::int) < 10 \<and> [4, 4, 1] \<in> set (coalesce [1, 2, 11, 4, 4, 1, 2] 10 (\<lambda>x::int. x)) \<and>
   \<not> oversized_singleton 10 (\<lambda>x::int. x) [4, 4, 1] \<and>
   sum_list (map (\<lambda>x::int. x) [4, 4, 1]) \<le> 10"
proof -
  have h1: "(0::int) < 10" by simp
  have h2: "[4, 4, 1] \<in> set (coalesce [1, 2, 11, 4, 4, 1, 2] 10 (\<lambda>x::int. x))"
    by (simp add: coalesce_def)
  have h3: "\<not> oversized_singleton 10 (\<lambda>x::int. x) [4, 4, 1]"
    by (simp add: oversized_singleton_def)
  from coalesce_within_budget [OF h1 h2 h3] h1 h2 h3 show ?thesis by blast
qed

text \<open>
  C3. The claim is that no emitted group is empty. The loop yields \<^verbatim>\<open>batch\<close> without
  looking at it, so when the first item alone is larger than the budget the first group
  emitted is the empty one: here on the items 11, 1 with budget 10.
\<close>

theorem coalesce_first_item_oversized:
  "coalesce [11, 1] 10 (\<lambda>x::int. x) = [[], [11], [1]]"
  by (simp add: coalesce_def)

text \<open>
  C4. With a sizer that is never negative, an item of the input whose size alone exceeds
  the budget is emitted as a group of its own: the singleton is among the groups, and
  every group that holds the item is that singleton.
\<close>

theorem coalesce_oversized_alone:
  assumes "nonneg_sizer sizer" and "x \<in> set xs" and "m < sizer x"
  shows "[x] \<in> set (coalesce xs m sizer) \<and>
         (\<forall>g \<in> set (coalesce xs m sizer). x \<in> set g \<longrightarrow> g = [x])"
proof -
  obtain out final where r: "coalesce_loop xs m sizer [] 0 = (out, final)"
    by (cases "coalesce_loop xs m sizer [] 0") auto
  have "alone_if_oversized m sizer []" by (simp add: alone_if_oversized_def)
  from coalesce_loop_alone [OF r assms(1) _ this]
  have a: "\<forall>g \<in> set out \<union> {final}. alone_if_oversized m sizer g"
    by simp
  have only: "g = [x]" if "g \<in> set (coalesce xs m sizer)" "x \<in> set g" for g
  proof -
    from coalesce_groups [OF r that(1)] a have "alone_if_oversized m sizer g" by blast
    with that(2) assms(3) show ?thesis by (auto simp: alone_if_oversized_def)
  qed
  from assms(2) have "x \<in> set (concat (coalesce xs m sizer))"
    by (simp add: coalesce_flatten)
  then obtain g where "g \<in> set (coalesce xs m sizer)" "x \<in> set g" by auto
  with only have "[x] \<in> set (coalesce xs m sizer)" by auto
  with only show ?thesis by blast
qed

theorem coalesce_oversized_alone_witness:
  "nonneg_sizer (\<lambda>x::nat. int x) \<and> 11 \<in> set [1, 2, 11, 4, 4, 1, 2::nat] \<and>
   [11] \<in> set (coalesce [1, 2, 11, 4, 4, 1, 2::nat] 10 int) \<and>
   [1, 2, 11] \<notin> set (coalesce [1, 2, 11, 4, 4, 1, 2::nat] 10 int)"
proof -
  have h1: "nonneg_sizer (\<lambda>x::nat. int x)" by (simp add: nonneg_sizer_def)
  have h2: "11 \<in> set [1, 2, 11, 4, 4, 1, 2::nat]" by simp
  have h3: "10 < int 11" by simp
  from coalesce_oversized_alone [OF h1 h2 h3] h1 h2 show ?thesis by auto
qed

text \<open>
  C5. An item \<open>x\<close> whose size is exactly the (positive) budget \<open>m\<close>. When it arrives at
  running size 0 it joins the running group and nothing is emitted; at a positive running
  size the earlier group is emitted and \<open>x\<close> starts a group. Either way the loop goes on
  with \<open>x\<close> last in the running group and running size \<open>m\<close>, the group not yet emitted.
  From there the next item \<open>y\<close> closes the group exactly when its size is positive; an
  item of size 0 joins the group; at the end of the input the loop emits nothing and
  leaves the group to the final flush. So \<open>x\<close> followed by an item of positive size gives
  \<open>[x]\<close> as the first group, and \<open>x\<close> alone gives the single group \<open>[x]\<close>.
\<close>

theorem coalesce_exact_size_item:
  assumes "sizer x = m" and "0 < m"
  shows "coalesce_loop (x # rest) m sizer batch 0 = coalesce_loop rest m sizer (batch @ [x]) m \<and>
    (0 < cur \<longrightarrow> coalesce_loop (x # rest) m sizer batch cur =
        apfst ((#) batch) (coalesce_loop rest m sizer [x] m)) \<and>
    (0 < sizer y \<longrightarrow> coalesce_loop (y # rest) m sizer (g @ [x]) m =
        apfst ((#) (g @ [x])) (coalesce_loop rest m sizer [y] (sizer y))) \<and>
    (sizer y \<le> 0 \<longrightarrow> coalesce_loop (y # rest) m sizer (g @ [x]) m =
        coalesce_loop rest m sizer (g @ [x] @ [y]) (m + sizer y)) \<and>
    coalesce_loop [] m sizer (g @ [x]) m = ([], g @ [x]) \<and>
    (0 < sizer y \<longrightarrow> (\<exists>gs. coalesce (x # y # rest) m sizer = [x] # gs)) \<and>
    coalesce [x] m sizer = [[x]]"
proof -
  have a: "coalesce_loop (x # rest) m sizer batch 0 = coalesce_loop rest m sizer (batch @ [x]) m"
    using assms by (simp add: Let_def)
  have b: "coalesce_loop (x # rest) m sizer batch cur =
        apfst ((#) batch) (coalesce_loop rest m sizer [x] m)" if "0 < cur"
    using assms that by (cases "coalesce_loop rest m sizer [x] m") (simp add: Let_def)
  have c: "coalesce_loop (y # rest) m sizer (g @ [x]) m =
        apfst ((#) (g @ [x])) (coalesce_loop rest m sizer [y] (sizer y))" if "0 < sizer y"
    using that by (cases "coalesce_loop rest m sizer [y] (sizer y)") (simp add: Let_def)
  have d: "coalesce_loop (y # rest) m sizer (g @ [x]) m =
        coalesce_loop rest m sizer (g @ [x] @ [y]) (m + sizer y)" if "sizer y \<le> 0"
    using that by (simp add: Let_def)
  have e: "\<exists>gs. coalesce (x # y # rest) m sizer = [x] # gs" if "0 < sizer y"
    using assms that
    by (cases "coalesce_loop rest m sizer [y] (sizer y)") (simp add: coalesce_def Let_def)
  have f: "coalesce [x] m sizer = [[x]]"
    using assms by (simp add: coalesce_def Let_def)
  from a b c d e f show ?thesis by simp
qed

theorem coalesce_exact_size_item_witness:
  "(\<lambda>x::int. x) 10 = 10 \<and> (0::int) < 10 \<and>
   coalesce [10, 1, 2] 10 (\<lambda>x::int. x) = [[10], [1, 2]] \<and>
   coalesce [10, 0, 2] 10 (\<lambda>x::int. x) = [[10, 0], [2]] \<and>
   coalesce [10] 10 (\<lambda>x::int. x) = [[10]]"
proof -
  have h1: "(\<lambda>x::int. x) 10 = 10" by simp
  have h2: "(0::int) < 10" by simp
  from coalesce_exact_size_item
    [where sizer = "\<lambda>x::int. x" and x = 10 and m = 10 and y = 1 and rest = "[2]"] h1 h2
  have "(\<exists>gs. coalesce [10, 1, 2] 10 (\<lambda>x::int. x) = [10] # gs) \<and>
        coalesce [10] 10 (\<lambda>x::int. x) = [[10]]" by simp
  then show ?thesis by (simp add: coalesce_def)
qed

text \<open>
  C10. \<open>coalesce\<close> emits an empty group exactly when the input is not empty and its first
  item is larger than the budget; then the empty group is the first group and no other
  group is empty. This holds for every budget and every sizer.
\<close>

theorem coalesce_empty_group_iff:
  "([] \<in> set (coalesce xs m sizer) \<longleftrightarrow> xs \<noteq> [] \<and> m < sizer (hd xs)) \<and>
   (xs \<noteq> [] \<and> m < sizer (hd xs) \<longrightarrow>
      (\<exists>gs. coalesce xs m sizer = [] # gs \<and> [] \<notin> set gs))"
proof (cases xs)
  case Nil
  then show ?thesis by (simp add: coalesce_Nil)
next
  case (Cons x rest)
  show ?thesis
  proof (cases "m < sizer x")
    case True
    from coalesce_Cons_big [of m sizer x rest] Cons True show ?thesis by auto
  next
    case False
    from coalesce_Cons_small [of m sizer x rest] Cons False show ?thesis by simp
  qed
qed

theorem coalesce_empty_group_iff_witness:
  "[11, 1::int] \<noteq> [] \<and> 10 < (\<lambda>x::int. x) (hd [11, 1]) \<and>
   [] \<in> set (coalesce [11, 1] 10 (\<lambda>x::int. x)) \<and>
   [] \<notin> set (coalesce [1, 11] 10 (\<lambda>x::int. x))"
proof -
  have h: "[11, 1::int] \<noteq> [] \<and> 10 < (\<lambda>x::int. x) (hd [11, 1])" by simp
  from coalesce_empty_group_iff [of "[11, 1]" 10 "\<lambda>x::int. x"] h
  have a: "[] \<in> set (coalesce [11, 1] 10 (\<lambda>x::int. x))" by blast
  from coalesce_empty_group_iff [of "[1, 11]" 10 "\<lambda>x::int. x"]
  have b: "[] \<notin> set (coalesce [1, 11] 10 (\<lambda>x::int. x))" by simp
  from a b h show ?thesis by blast
qed

section \<open>Properties of the pipeline\<close>

subsection \<open>The sink's loop and the concatenation of groups\<close>



lemma concat_groups_all:
  "\<forall>g \<in> set gs. concat_tables lib g \<noteq> None \<Longrightarrow>
   concat_groups lib gs = (map (\<lambda>g. the (concat_tables lib g)) gs, None)"
proof (induction gs)
  case Nil
  then show ?case by simp
next
  case (Cons g gs)
  from Cons.prems obtain t where t: "concat_tables lib g = Some t" by auto
  from Cons.prems have "\<forall>h \<in> set gs. concat_tables lib h \<noteq> None" by simp
  from Cons.IH [OF this] t show ?case by simp
qed

lemma sink_no_tables: "stream_to_parquet lib path ([], None) fs = (fs, None)"
  by (simp add: stream_to_parquet_def)

lemma orchestrator_no_fragments:
  assumes "stream_from_dir lib d p = ([], None)"
  shows "coalese_parquets lib d p out marg fs = (fs, None)"
  using assms
  by (simp add: coalese_parquets_def coalesce_gen_def coalesce_def coalesced_tables_def
      stream_to_parquet_def)

subsection \<open>The claims about the sink and the orchestrator\<close>

text \<open>
  C6. When the sequence of tables given to the sink is empty, \<open>stream_to_parquet\<close> returns
  without raising and leaves the files as they were: no file is created or written. End
  to end, when the source finds no fragment (the directory stream is empty and does not
  raise), \<open>coalese_parquets\<close> and \<open>main\<close> complete without an error and the files are
  unchanged.
\<close>

theorem sink_empty_input:
  "stream_to_parquet lib path ([], None) fs = (fs, None) \<and>
   (stream_from_dir lib d p = ([], None) \<longrightarrow>
      coalese_parquets lib d p out marg fs = (fs, None) \<and>
      main lib [d, p, out] fs = (fs, None))"
  by (simp add: sink_no_tables orchestrator_no_fragments main_def)

theorem sink_empty_input_witness:
  "stream_from_dir demo ''in'' ''*.csv'' = ([], None) \<and>
   coalese_parquets demo ''in'' ''*.csv'' ''out'' None Map.empty = (Map.empty, None) \<and>
   main demo [''in'', ''*.csv'', ''out''] Map.empty = (Map.empty, None)"
proof -
  have h: "stream_from_dir demo ''in'' ''*.csv'' = ([], None)"
    by (simp add: stream_from_dir_def demo_def demo_glob_def)
  from sink_empty_input [of demo "''out''" Map.empty "''in''" "''*.csv''" "''out''" None] h
  show ?thesis by blast
qed




text \<open>
  C8. The claim is that a fourth argument, when given, sets the maximum group size. On
  the arguments \<open>in\<close>, \<open>*.parquet\<close>, \<open>out\<close>, \<open>5\<close>, with two fragments of three rows each in
  the directory, \<open>main\<close> writes one row group of six rows, where a maximum group size of
  5 gives two row groups of three rows.
\<close>

theorem main_ignores_fourth_argument:
  "fst (main demo [''in'', ''*.parquet'', ''out'', ''5''] Map.empty) ''out'' =
     Some (''s'', [(''s'', [1, 2, 3, 4, 5, 6])]) \<and>
   fst (coalese_parquets demo ''in'' ''*.parquet'' ''out'' (Some 5) Map.empty) ''out'' =
     Some (''s'', [(''s'', [1, 2, 3]), (''s'', [4, 5, 6])])"
  by code_simp

text \<open>
  C8, as the code has it. \<open>main\<close> reads three positional arguments (input directory,
  filename pattern, output path), ignores any further argument and always runs with the
  maximum group size \<open>2 ^ 20 = 1048576\<close>; with fewer than three arguments it raises.
  The optional maximum group size is a parameter of the function \<open>coalese_parquets\<close>:
  left out it is 1048576, and a value the caller supplies is the budget handed to
  \<open>coalesce\<close>.
\<close>

theorem main_max_size_default:
  "(3 \<le> length argv \<longrightarrow>
      main lib argv fs =
        coalese_parquets lib (argv ! 0) (argv ! 1) (argv ! 2) (Some 1048576) fs) \<and>
   (length argv < 3 \<longrightarrow> main lib argv fs = (fs, Some IndexError)) \<and>
   coalese_parquets lib d p out None fs = coalese_parquets lib d p out (Some 1048576) fs \<and>
   coalese_parquets lib d p out (Some m) fs =
     stream_to_parquet lib out
       (coalesced_tables lib (coalesce_gen (stream_from_dir lib d p) m (num_rows lib))) fs"
  by (simp add: main_def coalese_parquets_def)

theorem main_max_size_default_witness:
  "3 \<le> length [''in'', ''*.parquet'', ''out'', ''5''] \<and>
   main demo [''in'', ''*.parquet'', ''out'', ''5''] Map.empty =
     coalese_parquets demo ''in'' ''*.parquet'' ''out'' (Some 1048576) Map.empty \<and>
   main demo [''in'', ''*.parquet''] Map.empty = (Map.empty, Some IndexError)"
proof -
  have h: "3 \<le> length [''in'', ''*.parquet'', ''out'', ''5'']" by simp
  from main_max_size_default [of "[''in'', ''*.parquet'', ''out'', ''5'']" demo Map.empty] h
  have a: "main demo [''in'', ''*.parquet'', ''out'', ''5''] Map.empty =
     coalese_parquets demo ''in'' ''*.parquet'' ''out'' (Some 1048576) Map.empty" by simp
  from main_max_size_default [of "[''in'', ''*.parquet'']" demo Map.empty]
  have b: "main demo [''in'', ''*.parquet''] Map.empty = (Map.empty, Some IndexError)" by simp
  from a b h show ?thesis by blast
qed

text \<open>
  C9. The claim is that the caller of \<open>coalese_parquets\<close> can substitute the sizer. The
  function has no such argument: on the two fragments of three rows each, with budget 30,
  it writes the single row group of the row-count grouping, where the byte sizer (24
  bytes a fragment) gives two groups.
\<close>

theorem orchestrator_groups_by_row_count_only:
  "fst (coalese_parquets demo ''in'' ''*.parquet'' ''out'' (Some 30) Map.empty) ''out'' =
     Some (''s'', [(''s'', [1, 2, 3, 4, 5, 6])]) \<and>
   coalesce [(''s'', [1, 2, 3]), (''s'', [4, 5, 6])] 30 demo_nbytes =
     [[(''s'', [1, 2, 3])], [(''s'', [4, 5, 6])]] \<and>
   coalesce [(''s'', [1, 2, 3]), (''s'', [4, 5, 6])] 30 (num_rows demo) =
     [[(''s'', [1, 2, 3]), (''s'', [4, 5, 6])]]"
  by code_simp

text \<open>
  C9, as the code has it. \<open>coalese_parquets\<close> always sizes the groups by row count, the
  default sizer of \<open>coalesce\<close>: when the source yields the tables \<open>ts\<close> and every group
  concatenates, the tables handed to the sink are the concatenations of the groups of
  \<open>coalesce ts m\<close> under the row-count sizer. A different sizer is an argument of
  \<open>coalesce\<close> only, where it can change the grouping: on two tables of three rows and
  budget 30, the byte sizer and the row-count sizer give different groups.
\<close>

theorem orchestrator_sizer_is_row_count:
  "(stream_from_dir lib d p = (ts, None) \<and>
    (\<forall>g \<in> set (coalesce ts m (num_rows lib)). concat_tables lib g \<noteq> None) \<longrightarrow>
      coalese_parquets lib d p out (Some m) fs =
        stream_to_parquet lib out
          (map (\<lambda>g. the (concat_tables lib g)) (coalesce ts m (num_rows lib)), None) fs) \<and>
   coalesce [(''s'', [1, 2, 3]), (''s'', [4, 5, 6])] 30 demo_nbytes \<noteq>
   coalesce [(''s'', [1, 2, 3]), (''s'', [4, 5, 6])] 30 (num_rows demo)"
proof (intro conjI impI)
  assume "stream_from_dir lib d p = (ts, None) \<and>
    (\<forall>g \<in> set (coalesce ts m (num_rows lib)). concat_tables lib g \<noteq> None)"
  then have a: "stream_from_dir lib d p = (ts, None)"
    and b: "\<forall>g \<in> set (coalesce ts m (num_rows lib)). concat_tables lib g \<noteq> None"
    by simp_all
  from concat_groups_all [OF b] a
  show "coalese_parquets lib d p out (Some m) fs =
        stream_to_parquet lib out
          (map (\<lambda>g. the (concat_tables lib g)) (coalesce ts m (num_rows lib)), None) fs"
    by (simp add: coalese_parquets_def coalesce_gen_def coalesced_tables_def)
next
  show "coalesce [(''s'', [1, 2, 3]), (''s'', [4, 5, 6])] 30 demo_nbytes \<noteq>
    coalesce [(''s'', [1, 2, 3]), (''s'', [4, 5, 6])] 30 (num_rows demo)"
    by code_simp
qed

theorem orchestrator_sizer_is_row_count_witness:
  "stream_from_dir demo ''in'' ''*.parquet'' =
     ([(''s'', [1, 2, 3]), (''s'', [4, 5, 6])], None) \<and>
   coalese_parquets demo ''in'' ''*.parquet'' ''out'' (Some 30) Map.empty =
     stream_to_parquet demo ''out'' ([(''s'', [1, 2, 3, 4, 5, 6])], None) Map.empty"
proof -
  have h1: "stream_from_dir demo ''in'' ''*.parquet'' =
     ([(''s'', [1, 2, 3]), (''s'', [4, 5, 6])], None)"
    by code_simp
  have g: "coalesce [(''s'', [1, 2, 3]), (''s'', [4, 5, 6])] 30 (num_rows demo) =
     [[(''s'', [1, 2, 3]), (''s'', [4, 5, 6])]]"
    by code_simp
  have c: "concat_tables demo [(''s'', [1, 2, 3]), (''s'', [4, 5, 6])] =
     Some (''s'', [1, 2, 3, 4, 5, 6])"
    by code_simp
  from g c
  have h2: "\<forall>g \<in> set (coalesce [(''s'', [1, 2, 3]), (''s'', [4, 5, 6])] 30 (num_rows demo)).
      concat_tables demo g \<noteq> None"
    by simp
  from orchestrator_sizer_is_row_count
    [of demo "''in''" "''*.parquet''" "[(''s'', [1, 2, 3]), (''s'', [4, 5, 6])]" 30
        "''out''" Map.empty] h1 h2
  have "coalese_parquets demo ''in'' ''*.parquet'' ''out'' (Some 30) Map.empty =
     stream_to_parquet demo ''out''
       (map (\<lambda>g. the (concat_tables demo g))
          (coalesce [(''s'', [1, 2, 3]), (''s'', [4, 5, 6])] 30 (num_rows demo)), None)
       Map.empty"
    by blast
  with g c h1 show ?thesis by simp
qed

end
